theory Spec2Isabelle
  imports Main "HOL-Library.Char_ord" "HOL-Library.List_Lexorder"
begin

section \<open>Text: characters, classes and the string methods the pipeline uses\<close>

text \<open>
  A Python \<open>str\<close> is modelled as a \<^typ>\<open>string\<close> whose characters are the code points
  0..255; the character classes below are the ones Python's \<open>str\<close> methods and the
  \<open>re\<close> module (Unicode mode, the default for \<open>str\<close> patterns) assign to these code
  points. Code points from 256 upwards are outside the model.
\<close>

definition code :: "char \<Rightarrow> nat" where
  "code c = of_char c"

text \<open>\<open>str.isspace\<close> and the class \<open>\s\<close>.\<close>

definition isspace :: "char \<Rightarrow> bool" where
  "isspace c = ((9 \<le> code c \<and> code c \<le> 13) \<or> (28 \<le> code c \<and> code c \<le> 32)
                \<or> code c = 133 \<or> code c = 160)"

text \<open>The class \<open>\d\<close> (decimal digits) and the literal range \<open>0-9\<close>.\<close>

definition re_digit :: "char \<Rightarrow> bool" where
  "re_digit c = (48 \<le> code c \<and> code c \<le> 57)"

text \<open>\<open>str.isdigit\<close>: the decimal digits and the superscript digits.\<close>

definition isdigit :: "char \<Rightarrow> bool" where
  "isdigit c = (re_digit c \<or> code c = 178 \<or> code c = 179 \<or> code c = 185)"

text \<open>The range \<open>A-Z\<close> under \<open>re.IGNORECASE\<close>.\<close>

definition ascii_letter :: "char \<Rightarrow> bool" where
  "ascii_letter c = ((65 \<le> code c \<and> code c \<le> 90) \<or> (97 \<le> code c \<and> code c \<le> 122))"

text \<open>The class \<open>\w\<close>: \<open>str.isalnum\<close> or the underscore.\<close>

definition re_word :: "char \<Rightarrow> bool" where
  "re_word c = (re_digit c \<or> ascii_letter c \<or> code c = 95
                \<or> code c = 170 \<or> code c = 178 \<or> code c = 179 \<or> code c = 181
                \<or> code c = 185 \<or> code c = 186 \<or> (188 \<le> code c \<and> code c \<le> 190)
                \<or> (192 \<le> code c \<and> code c \<le> 214) \<or> (216 \<le> code c \<and> code c \<le> 246)
                \<or> 248 \<le> code c)"

text \<open>The class \<open>.\<close> (without \<open>re.DOTALL\<close>): anything but a newline.\<close>

definition re_dot :: "char \<Rightarrow> bool" where
  "re_dot c = (c \<noteq> CHR 0x0A)"

text \<open>\<open>str.lower\<close>, character by character.\<close>

definition lower_char :: "char \<Rightarrow> char" where
  "lower_char c = (if (65 \<le> code c \<and> code c \<le> 90) \<or> (192 \<le> code c \<and> code c \<le> 214)
                      \<or> (216 \<le> code c \<and> code c \<le> 222)
                   then char_of (code c + 32) else c)"

definition lower :: "string \<Rightarrow> string" where
  "lower s = map lower_char s"

text \<open>\<open>str.strip()\<close> and \<open>str.rstrip("\n")\<close>.\<close>

definition strip :: "string \<Rightarrow> string" where
  "strip s = rev (dropWhile isspace (rev (dropWhile isspace s)))"

definition rstrip_nl :: "string \<Rightarrow> string" where
  "rstrip_nl s = rev (dropWhile (\<lambda>c. c = CHR 0x0A) (rev s))"

text \<open>\<open>k in s\<close> on strings: \<open>k\<close> occurs in \<open>s\<close> as a contiguous substring.\<close>

fun startswith :: "string \<Rightarrow> string \<Rightarrow> bool" where
  "startswith s [] = True"
| "startswith [] (k # ks) = False"
| "startswith (c # cs) (k # ks) = (c = k \<and> startswith cs ks)"

fun contains :: "string \<Rightarrow> string \<Rightarrow> bool" where
  "contains [] k = (k = [])"
| "contains (c # cs) k = (startswith (c # cs) k \<or> contains cs k)"

definition endswith_nl :: "string \<Rightarrow> bool" where
  "endswith_nl s = (s \<noteq> [] \<and> last s = CHR 0x0A)"

text \<open>
  \<open>str.splitlines()\<close>: the text is cut at every line boundary (\<open>\n\<close>, \<open>\r\<close>, \<open>\r\n\<close>,
  \<open>\v\<close>, \<open>\f\<close>, \<open>\x1c\<close>, \<open>\x1d\<close>, \<open>\x1e\<close>, \<open>\x85\<close>); the boundaries are dropped and a
  boundary at the very end opens no further line. The first argument accumulates the
  current line, reversed.
\<close>

definition linebreak :: "char \<Rightarrow> bool" where
  "linebreak c = ((10 \<le> code c \<and> code c \<le> 13) \<or> (28 \<le> code c \<and> code c \<le> 30) \<or> code c = 133)"

fun splitlines_from :: "string \<Rightarrow> string \<Rightarrow> string list" where
  "splitlines_from acc [] = (if acc = [] then [] else [rev acc])"
| "splitlines_from acc [c] =
     (if linebreak c then [rev acc] else [rev (c # acc)])"
| "splitlines_from acc (c # d # cs) =
     (if c = CHR 0x0D \<and> d = CHR 0x0A then rev acc # splitlines_from [] cs
      else if linebreak c then rev acc # splitlines_from [] (d # cs)
      else splitlines_from (c # acc) (d # cs))"

definition splitlines :: "string \<Rightarrow> string list" where
  "splitlines s = splitlines_from [] s"

section \<open>Regular expressions\<close>

text \<open>
  Every pattern of the program is a sequence of items, each either an assertion
  (\<open>^\<close>, \<open>$\<close>, \<open>\b\<close>) or one character class under a quantifier, greedy or lazy, possibly
  inside a named group. \<open>re_run\<close> is the backtracking search of Python's \<open>re\<close>: the
  candidates for a quantifier are tried in its order of preference (greedy: longest
  first; lazy: shortest first), and the first one under which the rest of the pattern
  matches is taken. It is given the text before the position (reversed) and the text
  from the position on, and returns the groups with the two texts at the end of the
  match.
\<close>

datatype quant = Greedy | Lazy

datatype item =
    Cls "char \<Rightarrow> bool" nat "nat option" quant "string option"
  | Bol
  | Eol
  | WordB

type_synonym groups = "(string \<times> string) list"

definition word_boundary :: "string \<Rightarrow> string \<Rightarrow> bool" where
  "word_boundary pre s =
     ((case pre of [] \<Rightarrow> False | c # _ \<Rightarrow> re_word c) \<noteq> (case s of [] \<Rightarrow> False | c # _ \<Rightarrow> re_word c))"

text \<open>
  The numbers of characters a quantifier \<open>{lo,hi}\<close> over the class \<open>P\<close> may take at
  the start of \<open>s\<close>, in the order in which the search tries them.
\<close>

definition candidates :: "(char \<Rightarrow> bool) \<Rightarrow> nat \<Rightarrow> nat option \<Rightarrow> quant \<Rightarrow> string \<Rightarrow> nat list" where
  "candidates P lo hi q s =
     (let avail = length (takeWhile P s);
          top = (case hi of None \<Rightarrow> avail | Some h \<Rightarrow> min h avail)
      in case q of Greedy \<Rightarrow> rev [lo ..< Suc top] | Lazy \<Rightarrow> [lo ..< Suc top])"

definition bind_group :: "string option \<Rightarrow> string \<Rightarrow> groups \<Rightarrow> groups" where
  "bind_group g v gs = (case g of None \<Rightarrow> gs | Some name \<Rightarrow> (name, v) # gs)"

fun re_run :: "item list \<Rightarrow> string \<Rightarrow> string \<Rightarrow> groups \<Rightarrow> (groups \<times> string \<times> string) option"
  and re_try :: "item list \<Rightarrow> string \<Rightarrow> string \<Rightarrow> groups \<Rightarrow> string option \<Rightarrow> nat list
                   \<Rightarrow> (groups \<times> string \<times> string) option" where
  "re_run [] pre s gs = Some (gs, pre, s)"
| "re_run (Bol # its) pre s gs = (if pre = [] then re_run its pre s gs else None)"
| "re_run (Eol # its) pre s gs = (if s = [] \<or> s = [CHR 0x0A] then re_run its pre s gs else None)"
| "re_run (WordB # its) pre s gs = (if word_boundary pre s then re_run its pre s gs else None)"
| "re_run (Cls P lo hi q g # its) pre s gs = re_try its pre s gs g (candidates P lo hi q s)"
| "re_try its pre s gs g [] = None"
| "re_try its pre s gs g (n # ns) =
     (case re_run its (rev (take n s) @ pre) (drop n s) (bind_group g (take n s) gs) of
        Some r \<Rightarrow> Some r
      | None \<Rightarrow> re_try its pre s gs g ns)"

text \<open>\<open>m.group(name)\<close> of a successful match.\<close>

definition group :: "groups \<Rightarrow> string \<Rightarrow> string" where
  "group gs name = (case map_of gs name of Some v \<Rightarrow> v | None \<Rightarrow> [])"

text \<open>\<open>pattern.match(s)\<close>: the pattern tried at the start of \<open>s\<close> only.\<close>

definition re_match :: "item list \<Rightarrow> string \<Rightarrow> groups option" where
  "re_match pat s = map_option fst (re_run pat [] s [])"

text \<open>
  The left-to-right scan behind \<open>finditer\<close>, \<open>findall\<close> and \<open>sub\<close>: at each position
  the pattern is tried; a match is recorded and the scan goes on at its end, otherwise
  the character is passed over. (After an empty match the scan moves one character on;
  none of the patterns scanned here matches the empty string.)
\<close>

datatype piece = Skip char | Hit string

function re_scan :: "item list \<Rightarrow> string \<Rightarrow> string \<Rightarrow> piece list" where
  "re_scan pat pre s =
     (case re_run pat pre s [] of
        Some (gs, pre', s') \<Rightarrow>
          if length s' < length s
          then Hit (take (length s - length s') s) # re_scan pat pre' s'
          else Hit [] # (case s of [] \<Rightarrow> [] | c # cs \<Rightarrow> Skip c # re_scan pat (c # pre) cs)
      | None \<Rightarrow> (case s of [] \<Rightarrow> [] | c # cs \<Rightarrow> Skip c # re_scan pat (c # pre) cs))"
  by pat_completeness auto
termination
  by (relation "measure (\<lambda>(pat, pre, s). length s)") auto

fun hits :: "piece list \<Rightarrow> string list" where
  "hits [] = []"
| "hits (Skip c # ps) = hits ps"
| "hits (Hit m # ps) = m # hits ps"

fun rebuild :: "(string \<Rightarrow> string) \<Rightarrow> piece list \<Rightarrow> string" where
  "rebuild repl [] = []"
| "rebuild repl (Skip c # ps) = c # rebuild repl ps"
| "rebuild repl (Hit m # ps) = repl m @ rebuild repl ps"

definition re_finditer :: "item list \<Rightarrow> string \<Rightarrow> string list" where
  "re_finditer pat s = hits (re_scan pat [] s)"

definition re_sub :: "item list \<Rightarrow> (string \<Rightarrow> string) \<Rightarrow> string \<Rightarrow> string" where
  "re_sub pat repl s = rebuild repl (re_scan pat [] s)"

subsection \<open>The patterns\<close>

definition lit :: "char \<Rightarrow> item" where
  "lit c = Cls (\<lambda>x. x = c) 1 (Some 1) Greedy None"

definition ts_items :: "item list" where
  "ts_items =
     [lit CHR ''('',
      Cls re_digit 1 (Some 2) Greedy (Some ''h''), lit CHR '':'',
      Cls re_digit 2 (Some 2) Greedy (Some ''m''), lit CHR '':'',
      Cls re_digit 2 (Some 2) Greedy (Some ''s''), lit CHR '')'',
      Cls isspace 0 None Greedy None, lit CHR '':'',
      Cls isspace 0 None Greedy None,
      Cls re_dot 0 None Greedy (Some ''rest''),
      Cls isspace 0 None Greedy None, Eol]"

definition RE_SPEAKER_TS :: "item list" where
  "RE_SPEAKER_TS =
     [Bol, Cls isspace 0 None Greedy None,
      Cls re_dot 1 None Lazy (Some ''speaker''),
      Cls isspace 0 None Greedy None] @ ts_items"

definition RE_TS_ONLY :: "item list" where
  "RE_TS_ONLY = [Bol, Cls isspace 0 None Greedy None] @ ts_items"

definition email_local :: "char \<Rightarrow> bool" where
  "email_local c = (ascii_letter c \<or> re_digit c \<or> c \<in> set ''._%+-'')"

definition email_domain :: "char \<Rightarrow> bool" where
  "email_domain c = (ascii_letter c \<or> re_digit c \<or> c \<in> set ''.-'')"

definition EMAIL_RE :: "item list" where
  "EMAIL_RE =
     [WordB, Cls email_local 1 None Greedy None, lit CHR ''@'',
      Cls email_domain 1 None Greedy None, lit CHR ''.'',
      Cls ascii_letter 2 None Greedy None, WordB]"

definition phone_body :: "char \<Rightarrow> bool" where
  "phone_body c = (re_digit c \<or> isspace c \<or> c \<in> set ''().-'')"

definition PHONE_RE :: "item list" where
  "PHONE_RE =
     [Cls (\<lambda>x. x = CHR ''+'') 0 (Some 1) Greedy None,
      Cls re_digit 1 (Some 1) Greedy None,
      Cls phone_body 7 None Greedy None,
      Cls re_digit 1 (Some 1) Greedy None]"

definition ELLIPSIS_LINE :: "item list" where
  "ELLIPSIS_LINE =
     [Bol, Cls isspace 0 None Greedy None,
      lit CHR ''.'', lit CHR ''.'', lit CHR ''.'',
      Cls isspace 0 None Greedy None, Eol]"

definition WORD_RE :: "item list" where
  "WORD_RE = [Cls re_word 1 None Greedy None]"

section \<open>PII scanner\<close>

text \<open>A flag is the dictionary \<open>{"type": ..., "value": ...}\<close>.\<close>

record pii_flag =
  pii_type :: string
  pii_value :: string

text \<open>\<open>sum(c.isdigit() for c in val)\<close>\<close>

definition digit_count :: "string \<Rightarrow> nat" where
  "digit_count val = length (filter isdigit val)"

definition detect_pii :: "string \<Rightarrow> pii_flag list" where
  "detect_pii text =
     map (\<lambda>m. \<lparr>pii_type = ''email'', pii_value = m\<rparr>) (re_finditer EMAIL_RE text)
     @ map (\<lambda>val. \<lparr>pii_type = ''phone'', pii_value = val\<rparr>)
         (filter (\<lambda>val. 10 \<le> digit_count val) (re_finditer PHONE_RE text))"

definition phone_sub :: "string \<Rightarrow> string" where
  "phone_sub val = (if 10 \<le> digit_count val then ''[REDACTED_PHONE]'' else val)"

definition redact_pii :: "string \<Rightarrow> string" where
  "redact_pii text = re_sub PHONE_RE phone_sub (re_sub EMAIL_RE (\<lambda>m. ''[REDACTED_EMAIL]'') text)"

section \<open>Turns and the turn parser\<close>

record turn =
  speaker :: "string option"
  t :: int
  turn_text :: string
  section_type :: string
  is_elided :: bool
  pii_flags :: "pii_flag list option"

text \<open>
  \<open>int(...)\<close> on a group matched by \<open>\d{1,2}\<close> or \<open>\d{2}\<close>: a non-empty string of decimal
  digits, on which \<open>int\<close> does not raise.
\<close>

definition digit_val :: "char \<Rightarrow> int" where
  "digit_val c = int (code c) - 48"

definition py_int :: "string \<Rightarrow> int" where
  "py_int ds = foldl (\<lambda>a c. 10 * a + digit_val c) 0 ds"

definition ts_to_seconds :: "string \<Rightarrow> string \<Rightarrow> string \<Rightarrow> int" where
  "ts_to_seconds h m s = py_int h * 3600 + py_int m * 60 + py_int s"

text \<open>The state of the loop of \<open>parse_transcript\<close>: the turns flushed so far and \<open>cur\<close>.\<close>

record pstate =
  turns :: "turn list"
  cur :: "turn option"

text \<open>The blank-line branch: a paragraph break is kept inside a turn.\<close>

definition on_blank :: "pstate \<Rightarrow> pstate" where
  "on_blank st =
     (case cur st of
        None \<Rightarrow> st
      | Some c \<Rightarrow>
          if turn_text c \<noteq> [] \<and> \<not> endswith_nl (turn_text c)
          then st\<lparr>cur := Some (c\<lparr>turn_text := turn_text c @ ''\<newline>''\<rparr>)\<rparr>
          else st)"

text \<open>\<open>if cur is not None: cur.text = cur.text.strip(); turns.append(cur)\<close>\<close>

definition flush :: "pstate \<Rightarrow> turn list" where
  "flush st =
     (case cur st of
        None \<Rightarrow> turns st
      | Some c \<Rightarrow> turns st @ [c\<lparr>turn_text := strip (turn_text c)\<rparr>])"

text \<open>The turn a timestamp line opens, from the speaker and the groups of its match.\<close>

definition new_turn :: "bool \<Rightarrow> string option \<Rightarrow> groups \<Rightarrow> turn" where
  "new_turn redact spk gs =
     (let tt = ts_to_seconds (group gs ''h'') (group gs ''m'') (group gs ''s'');
          rest0 = strip (group gs ''rest'');
          elided = (re_match ELLIPSIS_LINE rest0 \<noteq> None \<or> rest0 = []);
          rest = (if redact \<and> rest0 \<noteq> [] then redact_pii rest0 else rest0)
      in \<lparr>speaker = spk, t = tt, turn_text = rest, section_type = ''unknown'',
          is_elided = elided,
          pii_flags = (if rest \<noteq> []
                       then (let flags = detect_pii rest in if flags \<noteq> [] then Some flags else None)
                       else None)\<rparr>)"

definition on_timestamp :: "bool \<Rightarrow> pstate \<Rightarrow> string option \<Rightarrow> groups \<Rightarrow> pstate" where
  "on_timestamp redact st spk gs = \<lparr>turns = flush st, cur = Some (new_turn redact spk gs)\<rparr>"

text \<open>The continuation branch.\<close>

definition narration :: turn where
  "narration = \<lparr>speaker = None, t = 0, turn_text = [], section_type = ''unknown'',
                 is_elided = False, pii_flags = None\<rparr>"

definition append_cont :: "turn \<Rightarrow> string \<Rightarrow> turn" where
  "append_cont c cont =
     (let c1 = (if turn_text c \<noteq> [] \<and> \<not> endswith_nl (turn_text c)
                then c\<lparr>turn_text := turn_text c @ '' ''\<rparr> else c);
          c2 = c1\<lparr>turn_text := turn_text c1 @ cont\<rparr>;
          c3 = (if cont \<noteq> [] \<and> re_match ELLIPSIS_LINE cont = None
                then c2\<lparr>is_elided := False\<rparr> else c2)
      in if cont \<noteq> []
         then (let flags = detect_pii cont
               in if flags \<noteq> []
                  then c3\<lparr>pii_flags := Some ((case pii_flags c3 of None \<Rightarrow> [] | Some fs \<Rightarrow> fs) @ flags)\<rparr>
                  else c3)
         else c3)"

definition on_continuation :: "bool \<Rightarrow> pstate \<Rightarrow> string \<Rightarrow> pstate" where
  "on_continuation redact st line =
     (let c = (case cur st of None \<Rightarrow> narration | Some c \<Rightarrow> c);
          cont0 = strip line;
          cont = (if redact \<and> cont0 \<noteq> [] then redact_pii cont0 else cont0)
      in st\<lparr>cur := Some (append_cont c cont)\<rparr>)"

text \<open>One iteration of the loop over the lines.\<close>

definition parse_line :: "bool \<Rightarrow> pstate \<Rightarrow> string \<Rightarrow> pstate" where
  "parse_line redact st raw_line =
     (let line = rstrip_nl raw_line
      in if strip line = [] then on_blank st
         else (case re_match RE_SPEAKER_TS line of
                 Some m1 \<Rightarrow> on_timestamp redact st (Some (strip (group m1 ''speaker''))) m1
               | None \<Rightarrow>
                   (case re_match RE_TS_ONLY line of
                      Some m2 \<Rightarrow> on_timestamp redact st None m2
                    | None \<Rightarrow> on_continuation redact st line)))"

definition parse_transcript :: "string \<Rightarrow> bool \<Rightarrow> turn list" where
  "parse_transcript text redact =
     flush (foldl (parse_line redact) \<lparr>turns = [], cur = None\<rparr> (splitlines text))"

text \<open>\<open>has_pii = any(t.pii_flags for t in turns if t.pii_flags)\<close> of \<open>ingest_folder\<close>.\<close>

definition truthy :: "pii_flag list option \<Rightarrow> bool" where
  "truthy fl = (case fl of None \<Rightarrow> False | Some fs \<Rightarrow> fs \<noteq> [])"

definition has_pii :: "turn list \<Rightarrow> bool" where
  "has_pii ts = list_ex (\<lambda>u. truthy (pii_flags u)) (filter (\<lambda>u. truthy (pii_flags u)) ts)"

section \<open>Section labeler\<close>

definition SPONSOR_START :: "string list" where
  "SPONSOR_START =
     [''this episode is brought to you by'', ''sponsored by'', ''our sponsor'',
      ''support this podcast'', ''thanks to our sponsor'']"

definition SPONSOR_TRANSITION :: "string list" where
  "SPONSOR_TRANSITION =
     [''and so with that'', ''with that'', ''let's get into'', ''now, my guest'',
      ''here's my conversation'', ''okay, let's start'', ''let's start'',
      ''today's guest'', ''i bring you'']"

definition OUTRO_MARKERS :: "string list" where
  "OUTRO_MARKERS =
     [''thank you so much for listening'', ''thanks so much for listening'',
      ''if you enjoyed this episode'', ''please subscribe'', ''see you next time'',
      ''leave a review'']"

text \<open>\<open>any(k in text_l for k in ks)\<close>\<close>

definition any_in :: "string list \<Rightarrow> string \<Rightarrow> bool" where
  "any_in ks text_l = list_ex (\<lambda>k. contains text_l k) ks"

record lstate =
  sponsor_mode :: bool
  sponsor_start_t :: "int option"
  outro_mode :: bool

text \<open>
  The body of the loop for the turn \<open>tr\<close> at position \<open>i\<close> of the list \<open>ts\<close> (whose
  earlier positions are labelled already): the new flags and the label given to \<open>tr\<close>.
\<close>

definition label_turn :: "lstate \<Rightarrow> nat \<Rightarrow> turn list \<Rightarrow> turn \<Rightarrow> lstate \<times> string" where
  "label_turn st i ts tr =
     (let text_l = lower (turn_text tr)
      in if outro_mode st then (st, ''outro'')
         else if any_in OUTRO_MARKERS text_l then (st\<lparr>outro_mode := True\<rparr>, ''outro'')
         else if \<not> sponsor_mode st \<and> any_in SPONSOR_START text_l
           then (st\<lparr>sponsor_mode := True, sponsor_start_t := Some (t tr)\<rparr>, ''sponsor'')
         else if sponsor_mode st
           then (if any_in SPONSOR_TRANSITION text_l
                 then (st\<lparr>sponsor_mode := False, sponsor_start_t := None\<rparr>, ''conversation'')
                 else if (case sponsor_start_t st of None \<Rightarrow> False | Some t0 \<Rightarrow> t tr - t0 > 8 * 60)
                 then (st\<lparr>sponsor_mode := False, sponsor_start_t := None\<rparr>, ''conversation'')
                 else (st, ''sponsor''))
         else if i = 0 then (st, ''intro'')
         else (st, if list_ex (\<lambda>u. section_type u = ''sponsor'') (take i ts)
                   then ''conversation'' else ''intro''))"

definition label_step :: "lstate \<times> turn list \<Rightarrow> nat \<Rightarrow> lstate \<times> turn list" where
  "label_step p i =
     (case p of (st, ts) \<Rightarrow>
        (case label_turn st i ts (ts ! i) of
           (st', lab) \<Rightarrow> (st', ts[i := (ts ! i)\<lparr>section_type := lab\<rparr>])))"

text \<open>The list is labelled in place; the model returns the labelled list.\<close>

definition label_sections :: "turn list \<Rightarrow> turn list" where
  "label_sections ts =
     (if ts = [] then ts
      else snd (foldl label_step
                  (\<lparr>sponsor_mode = False, sponsor_start_t = None, outro_mode = False\<rparr>, ts)
                  [0 ..< length ts]))"

section \<open>Chunk assembler\<close>

record chunk =
  chunk_id :: int
  t_start :: int
  t_end :: int
  speakers :: "string list"
  chunk_text :: string

definition allowed :: "bool \<Rightarrow> string set" where
  "allowed include_intro = {''conversation''} \<union> (if include_intro then {''intro''} else {})"

definition is_usable :: "bool \<Rightarrow> turn \<Rightarrow> bool" where
  "is_usable include_intro u =
     (section_type u \<in> allowed include_intro
      \<and> strip (turn_text u) \<noteq> []
      \<and> \<not> is_elided u
      \<and> re_match ELLIPSIS_LINE (strip (turn_text u)) = None)"

text \<open>\<open>len(re.findall(r"\w+", s))\<close>\<close>

definition word_count :: "string \<Rightarrow> int" where
  "word_count s = int (length (re_finditer WORD_RE s))"

text \<open>The format \<open>{t.t:06d}\<close>: decimal, padded with zeros to six characters, sign included.\<close>

function decimal :: "nat \<Rightarrow> string" where
  "decimal n = (if n < 10 then [char_of (48 + n)] else decimal (n div 10) @ [char_of (48 + n mod 10)])"
  by pat_completeness auto
termination
  by (relation "measure id") auto

definition fmt_06d :: "int \<Rightarrow> string" where
  "fmt_06d n =
     (if n < 0
      then CHR ''-'' # replicate (5 - length (decimal (nat (- n)))) CHR ''0'' @ decimal (nat (- n))
      else replicate (6 - length (decimal (nat n))) CHR ''0'' @ decimal (nat n))"

text \<open>\<open>(t.speaker or "Narration").strip()\<close> and the line \<open>f"{spk} ({t.t:06d}s): {t.text}"\<close>.\<close>

definition speaker_label :: "turn \<Rightarrow> string" where
  "speaker_label u =
     strip (case speaker u of None \<Rightarrow> ''Narration'' | Some n \<Rightarrow> if n = [] then ''Narration'' else n)"

definition render :: "turn \<Rightarrow> string" where
  "render u = speaker_label u @ '' ('' @ fmt_06d (t u) @ ''s): '' @ turn_text u"

fun join :: "string \<Rightarrow> string list \<Rightarrow> string" where
  "join sep [] = []"
| "join sep [x] = x"
| "join sep (x # y # ys) = x @ sep @ join sep (y # ys)"

text \<open>
  The inner loop \<open>while i < len(usable) and words < target_words\<close>: it returns the index
  it stopped at with the words counted, the lines and the speakers collected.
\<close>

function pack :: "turn list \<Rightarrow> int \<Rightarrow> nat \<Rightarrow> int \<Rightarrow> string list \<Rightarrow> string set
                    \<Rightarrow> nat \<times> int \<times> string list \<times> string set" where
  "pack usable target_words i words buf_parts spks =
     (if i < length usable \<and> words < target_words
      then pack usable target_words (i + 1) (words + word_count (turn_text (usable ! i)))
             (buf_parts @ [render (usable ! i)]) (insert (speaker_label (usable ! i)) spks)
      else (i, words, buf_parts, spks))"
  by pat_completeness auto
termination
  by (relation "measure (\<lambda>(usable, target_words, i, rest). length usable - i)") auto

text \<open>
  Indexing a list as Python does: a negative index counts from the end, and an index
  out of range raises \<open>IndexError\<close>.
\<close>

datatype py_error = IndexError

definition py_nth :: "'a list \<Rightarrow> int \<Rightarrow> py_error + 'a" where
  "py_nth xs k =
     (if 0 \<le> k \<and> k < int (length xs) then Inr (xs ! nat k)
      else if k < 0 \<and> 0 \<le> int (length xs) + k then Inr (xs ! nat (int (length xs) + k))
      else Inl IndexError)"

text \<open>
  The outer loop \<open>while i < len(usable)\<close>. It may run forever, so it is a partial
  function: \<open>None\<close> is the loop that never returns, \<open>Some (Inl e)\<close> a raised exception,
  \<open>Some (Inr chunks)\<close> the returned list. Each chunk is recorded with the index
  \<open>start_i\<close> it starts at and the index \<open>i\<close> at which its packing stopped, which the
  dictionary the program builds does not hold: the chunk packs the turns
  \<open>start_i, ..., i - 1\<close> of the filtered sequence.
\<close>

type_synonym emitted = "nat \<times> nat \<times> chunk"

partial_function (option) chunk_loop ::
  "turn list \<Rightarrow> int \<Rightarrow> int \<Rightarrow> nat \<Rightarrow> int \<Rightarrow> emitted list \<Rightarrow> (py_error + emitted list) option" where
  "chunk_loop usable target_words overlap_turns i cid chunks =
     (if i < length usable
      then (case pack usable target_words i 0 [] {} of
              (j, words, buf_parts, spks) \<Rightarrow>
                (case py_nth usable (int i) of
                   Inl e \<Rightarrow> Some (Inl e)
                 | Inr first \<Rightarrow>
                     (case py_nth usable (int j - 1) of
                        Inl e \<Rightarrow> Some (Inl e)
                      | Inr final \<Rightarrow>
                          chunk_loop usable target_words overlap_turns
                            (if overlap_turns > 0 then nat (max (int j - overlap_turns) (int i + 1)) else j)
                            (cid + 1)
                            (chunks @ [(i, j,
                               \<lparr>chunk_id = cid, t_start = t first, t_end = t final,
                                speakers = sorted_list_of_set spks,
                                chunk_text = strip (join ''\<newline>'' buf_parts)\<rparr>)]))))
      else Some (Inr chunks))"

declare chunk_loop.simps [code]

definition make_chunks_trace :: "turn list \<Rightarrow> bool \<Rightarrow> int \<Rightarrow> int \<Rightarrow> (py_error + emitted list) option" where
  "make_chunks_trace ts include_intro target_words overlap_turns =
     (let usable = filter (is_usable include_intro) ts
      in if usable = [] then Some (Inr [])
         else chunk_loop usable target_words overlap_turns 0 0 [])"

definition make_chunks :: "turn list \<Rightarrow> bool \<Rightarrow> int \<Rightarrow> int \<Rightarrow> (py_error + chunk list) option" where
  "make_chunks ts include_intro target_words overlap_turns =
     map_option (map_sum id (map (\<lambda>e. snd (snd e))))
       (make_chunks_trace ts include_intro target_words overlap_turns)"

section \<open>Verification\<close>

subsection \<open>The turn parser on the two scenarios\<close>

text \<open>
  C9. The line \<open>Jane Doe (00:01:05): I disagree with that.\<close>, a blank line and the
  line \<open>and here's why.\<close> parse to exactly one turn, with speaker \<open>Jane Doe\<close>, \<open>t = 65\<close>
  and the text \<open>I disagree with that.\nand here's why.\<close>: the paragraph break is one
  newline and no space follows it.
\<close>

theorem parse_jane_doe:
  "parse_transcript ''Jane Doe (00:01:05): I disagree with that.\<newline>\<newline>and here's why.'' False
   = [\<lparr>speaker = Some ''Jane Doe'', t = 65,
       turn_text = ''I disagree with that.\<newline>and here's why.'',
       section_type = ''unknown'', is_elided = False, pii_flags = None\<rparr>]"
  by code_simp

subsection \<open>The section labeler: the outro latch\<close>

lemma label_turn_outro:
  "label_turn st i ts tr = (st', lab) \<Longrightarrow>
     (lab = ''outro'' \<longrightarrow> outro_mode st') \<and> (outro_mode st \<longrightarrow> outro_mode st' \<and> lab = ''outro'')"
  by (auto simp: label_turn_def Let_def split: if_splits)

text \<open>
  The invariant of the loop after \<open>k\<close> turns: a labelled \<open>outro\<close> among them has set the
  latch, and the labels of the first \<open>k\<close> turns are \<open>outro\<close> from the first \<open>outro\<close> on.
\<close>

definition outro_inv :: "nat \<Rightarrow> lstate \<times> turn list \<Rightarrow> bool" where
  "outro_inv k p =
     ((\<forall>j<k. section_type (snd p ! j) = ''outro'' \<longrightarrow> outro_mode (fst p))
      \<and> (\<forall>j<k. \<forall>i<j. section_type (snd p ! i) = ''outro'' \<longrightarrow> section_type (snd p ! j) = ''outro''))"

lemma label_step_length: "length (snd (label_step p i)) = length (snd p)"
  by (simp add: label_step_def split: prod.splits)

lemma label_fold_length: "length (snd (foldl label_step p is)) = length (snd p)"
  by (induction "is" arbitrary: p) (simp_all add: label_step_length)

lemma label_step_inv:
  assumes "outro_inv k p" and "k < length (snd p)"
  shows "outro_inv (Suc k) (label_step p k)"
proof -
  obtain st ts where p: "p = (st, ts)" by (cases p)
  obtain st' lab where lt: "label_turn st k ts (ts ! k) = (st', lab)" by (cases "label_turn st k ts (ts ! k)")
  have step: "label_step (st, ts) k = (st', ts[k := (ts ! k)\<lparr>section_type := lab\<rparr>])"
    by (simp add: label_step_def lt)
  note o = label_turn_outro[OF lt]
  from assms show ?thesis
    unfolding p outro_inv_def step using o
    by (auto simp: less_Suc_eq nth_list_update)
qed

lemma label_fold_inv:
  "k \<le> length (snd p) \<Longrightarrow> outro_inv 0 p \<Longrightarrow> outro_inv k (foldl label_step p [0..<k])"
proof (induction k)
  case 0 then show ?case by simp
next
  case (Suc k)
  then have "outro_inv k (foldl label_step p [0..<k])" by simp
  moreover have "k < length (snd (foldl label_step p [0..<k]))" using Suc.prems by (simp add: label_fold_length)
  ultimately show ?case by (simp add: label_step_inv)
qed

lemma length_label_sections: "length (label_sections ts) = length ts"
  by (simp add: label_sections_def label_fold_length)

text \<open>
  C6. After \<open>label_sections\<close>, for positions \<open>i < j\<close> of the turn sequence: if the
  turn at \<open>i\<close> is labelled \<open>outro\<close>, so is the turn at \<open>j\<close>. The latch \<open>outro_mode\<close>
  is never cleared.
\<close>

theorem label_sections_outro_latched:
  assumes "i < j" and "j < length ts"
    and "section_type (label_sections ts ! i) = ''outro''"
  shows "section_type (label_sections ts ! j) = ''outro''"
proof -
  let ?p = "(\<lparr>sponsor_mode = False, sponsor_start_t = None, outro_mode = False\<rparr>, ts)"
  have "outro_inv (length ts) (foldl label_step ?p [0..<length ts])"
    by (rule label_fold_inv) (simp_all add: outro_inv_def)
  with assms show ?thesis
    by (auto simp: outro_inv_def label_sections_def split: if_splits)
qed

definition outro_example :: "turn list" where
  "outro_example =
     [\<lparr>speaker = Some ''Host'', t = 3000, turn_text = ''Please subscribe!'', section_type = ''unknown'',
       is_elided = False, pii_flags = None\<rparr>,
      \<lparr>speaker = Some ''Guest'', t = 3010, turn_text = ''Bye.'', section_type = ''unknown'',
       is_elided = False, pii_flags = None\<rparr>]"

theorem label_sections_outro_latched_witness:
  "(0::nat) < 1 \<and> 1 < length outro_example
   \<and> section_type (label_sections outro_example ! 0) = ''outro''
   \<and> section_type (label_sections outro_example ! 1) = ''outro''"
proof -
  have h1: "(0::nat) < 1" by simp
  have h2: "1 < length outro_example" by (simp add: outro_example_def)
  have h3: "section_type (label_sections outro_example ! 0) = ''outro''" by code_simp
  from label_sections_outro_latched[OF h1 h2 h3] h1 h2 h3 show ?thesis by blast
qed

subsection \<open>Facts about the string methods\<close>

lemma strip_Nil_iff: "strip s = [] \<longleftrightarrow> (\<forall>c\<in>set s. isspace c)"
proof
  assume "strip s = []"
  then have a: "\<forall>c\<in>set (dropWhile isspace s). isspace c"
    by (simp add: strip_def dropWhile_eq_Nil_conv)
  have "dropWhile isspace s = []"
  proof (rule ccontr)
    assume ne: "dropWhile isspace s \<noteq> []"
    then have "\<not> isspace (hd (dropWhile isspace s))" by (rule hd_dropWhile)
    moreover have "hd (dropWhile isspace s) \<in> set (dropWhile isspace s)" using ne by simp
    ultimately show False using a by blast
  qed
  then show "\<forall>c\<in>set s. isspace c" by (simp add: dropWhile_eq_Nil_conv)
next
  assume "\<forall>c\<in>set s. isspace c"
  then show "strip s = []"
    by (auto simp: strip_def dropWhile_eq_Nil_conv dest: set_dropWhileD)
qed

lemma rstrip_nl_id: "CHR 0x0A \<notin> set l \<Longrightarrow> rstrip_nl l = l"
  by (cases "rev l") (auto simp: rstrip_nl_def)

lemma linebreak_newline: "linebreak (CHR 0x0A)"
  by (simp add: linebreak_def code_def)

lemma splitlines_from_no_break:
  "\<forall>c\<in>set acc. \<not> linebreak c \<Longrightarrow> l \<in> set (splitlines_from acc s) \<Longrightarrow> c \<in> set l \<Longrightarrow> \<not> linebreak c"
  by (induction acc s rule: splitlines_from.induct) (auto split: if_splits)

lemma splitlines_rstrip: "l \<in> set (splitlines s) \<Longrightarrow> rstrip_nl l = l"
  using splitlines_from_no_break[of "[]" l s] linebreak_newline
  by (auto simp: splitlines_def intro!: rstrip_nl_id)

subsection \<open>Facts about the matcher\<close>

lemma re_try_Some:
  "re_try its pre s gs g ns = Some r \<Longrightarrow>
     \<exists>n\<in>set ns. re_run its (rev (take n s) @ pre) (drop n s) (bind_group g (take n s) gs) = Some r"
  by (induction ns) (auto split: option.splits)

lemma candidates_range:
  "n \<in> set (candidates P lo hi q s) \<Longrightarrow> lo \<le> n \<and> n \<le> length (takeWhile P s)"
  by (auto simp: candidates_def Let_def split: option.splits quant.splits)

text \<open>A successful match has met every class that must occur at least once.\<close>

lemma re_run_class:
  "re_run its pre s gs = Some r \<Longrightarrow> Cls P lo hi q g \<in> set its \<Longrightarrow> 0 < lo \<Longrightarrow> \<exists>c\<in>set s. P c"
proof (induction its arbitrary: pre s gs)
  case Nil
  then show ?case by simp
next
  case (Cons it its)
  show ?case
  proof (cases it)
    case (Cls P' lo' hi' q' g')
    with Cons.prems(1) obtain n where n: "n \<in> set (candidates P' lo' hi' q' s)"
      and run: "re_run its (rev (take n s) @ pre) (drop n s) (bind_group g' (take n s) gs) = Some r"
      by (auto dest: re_try_Some)
    show ?thesis
    proof (cases "Cls P lo hi q g = it")
      case True
      with Cls have eq: "P' = P" "lo' = lo" by simp_all
      from candidates_range[OF n] Cons.prems(3) eq have "takeWhile P s \<noteq> []" by auto
      then obtain c cs where "takeWhile P s = c # cs" by (cases "takeWhile P s") auto
      then have "c \<in> set (takeWhile P s)" by simp
      then have "c \<in> set s \<and> P c" by (auto dest: set_takeWhileD)
      then show ?thesis by blast
    next
      case False
      with Cons.prems(2) have "Cls P lo hi q g \<in> set its" by auto
      from Cons.IH[OF run this Cons.prems(3)] show ?thesis by (auto dest: in_set_dropD)
    qed
  next
    case Bol
    with Cons show ?thesis by (auto split: if_splits)
  next
    case Eol
    with Cons show ?thesis by (auto split: if_splits)
  next
    case WordB
    with Cons show ?thesis by (auto split: if_splits)
  qed
qed

lemma not_isspace_paren: "\<not> isspace CHR ''(''"
  by (simp add: isspace_def code_def)

lemma re_match_paren:
  assumes "re_match pat l = Some m" and "lit CHR ''('' \<in> set pat"
  shows "strip l \<noteq> []"
proof -
  from assms(1) obtain r where "re_run pat [] l [] = Some r" by (auto simp: re_match_def)
  from re_run_class[OF this assms(2)[unfolded lit_def]] have "CHR ''('' \<in> set l" by simp
  with not_isspace_paren show ?thesis by (auto simp: strip_Nil_iff)
qed

subsection \<open>Counting the turns\<close>

definition timestamp_line :: "string \<Rightarrow> bool" where
  "timestamp_line l = (re_match RE_SPEAKER_TS l \<noteq> None \<or> re_match RE_TS_ONLY l \<noteq> None)"

definition blank_line :: "string \<Rightarrow> bool" where
  "blank_line l = (strip l = [])"

definition opens_with_continuation :: "string list \<Rightarrow> bool" where
  "opens_with_continuation ls =
     (case filter (\<lambda>l. \<not> blank_line l) ls of [] \<Rightarrow> False | l # _ \<Rightarrow> \<not> timestamp_line l)"

lemma timestamp_line_not_blank: "timestamp_line l \<Longrightarrow> \<not> blank_line l"
  by (auto simp: timestamp_line_def blank_line_def RE_SPEAKER_TS_def RE_TS_ONLY_def ts_items_def
      dest!: re_match_paren)

lemma length_flush: "length (flush st) = length (turns st) + (if cur st = None then 0 else 1)"
  by (simp add: flush_def split: option.splits)

lemma parse_line_cases:
  assumes "rstrip_nl l = l"
  shows "blank_line l \<Longrightarrow> parse_line redact st l = on_blank st"
    and "timestamp_line l \<Longrightarrow> \<exists>spk m. parse_line redact st l = on_timestamp redact st spk m"
    and "\<not> blank_line l \<Longrightarrow> \<not> timestamp_line l \<Longrightarrow> parse_line redact st l = on_continuation redact st l"
  using assms timestamp_line_not_blank[of l]
  by (auto simp: parse_line_def blank_line_def timestamp_line_def split: option.splits)

lemma on_blank_shape: "turns (on_blank st) = turns st \<and> (cur (on_blank st) = None \<longleftrightarrow> cur st = None)"
  by (simp add: on_blank_def split: option.splits)

lemma parse_count_inv:
  assumes "\<forall>l\<in>set ls. rstrip_nl l = l"
  shows "length (flush (foldl (parse_line redact) \<lparr>turns = [], cur = None\<rparr> ls))
           = length (filter timestamp_line ls) + (if opens_with_continuation ls then 1 else 0)
         \<and> (cur (foldl (parse_line redact) \<lparr>turns = [], cur = None\<rparr> ls) = None
              \<longleftrightarrow> filter (\<lambda>l. \<not> blank_line l) ls = [])"
  using assms
proof (induction ls rule: rev_induct)
  case Nil
  then show ?case by (simp add: flush_def opens_with_continuation_def)
next
  case (snoc l ls)
  let ?st = "foldl (parse_line redact) \<lparr>turns = [], cur = None\<rparr> ls"
  from snoc have IH: "length (flush ?st) = length (filter timestamp_line ls) + (if opens_with_continuation ls then 1 else 0)"
    "cur ?st = None \<longleftrightarrow> filter (\<lambda>l. \<not> blank_line l) ls = []"
    and l: "rstrip_nl l = l" by simp_all
  consider (blank) "blank_line l" | (ts) "timestamp_line l" | (cont) "\<not> blank_line l" "\<not> timestamp_line l"
    by blast
  then show ?case
  proof cases
    case blank
    then have nt: "\<not> timestamp_line l" using timestamp_line_not_blank by blast
    from blank have "parse_line redact ?st l = on_blank ?st" by (rule parse_line_cases(1)[OF l])
    with IH blank nt on_blank_shape[of ?st] show ?thesis
      by (simp add: length_flush opens_with_continuation_def)
  next
    case ts
    then have nb: "\<not> blank_line l" using timestamp_line_not_blank by blast
    from parse_line_cases(2)[OF l ts] obtain spk m
      where "parse_line redact ?st l = on_timestamp redact ?st spk m" by blast
    with IH ts nb show ?thesis
      by (auto simp: length_flush on_timestamp_def opens_with_continuation_def split: list.splits)
  next
    case cont
    then have "parse_line redact ?st l = on_continuation redact ?st l" by (rule parse_line_cases(3)[OF l])
    with IH cont show ?thesis
      by (auto simp: length_flush on_continuation_def Let_def opens_with_continuation_def split: list.splits)
  qed
qed

text \<open>
  C7. The number of turns \<open>parse_transcript\<close> returns is the number of lines matching
  one of the two timestamp patterns, plus one (the synthetic leading turn) exactly when
  the first non-blank line is a continuation line.
\<close>

theorem parse_transcript_turn_count:
  "length (parse_transcript text redact)
     = length (filter timestamp_line (splitlines text))
       + (if opens_with_continuation (splitlines text) then 1 else 0)"
  using parse_count_inv[of "splitlines text" redact]
  by (simp add: parse_transcript_def splitlines_rstrip)

definition count_example :: string where
  "count_example = ''Welcome back.\<newline>(00:00:10): Hi.\<newline>\<newline>and more\<newline>Ann (00:00:20): Yes.''"

theorem parse_transcript_turn_count_witness:
  "length (parse_transcript count_example False) = 3"
proof -
  have a: "length (filter timestamp_line (splitlines count_example)) = 2" by code_simp
  have b: "opens_with_continuation (splitlines count_example)" by code_simp
  from parse_transcript_turn_count[of count_example False] a b show ?thesis by simp
qed

end
